theory Spec2Isabelle
  imports Main
begin

section \<open>Section search browser (CourseBrowser)\<close>

subsection \<open>JavaScript values held in the search parameters\<close>

text \<open>
  The search parameters are a JavaScript object. The interface \<open>SearchParams\<close> declares
  every field optional; at run time a field holds a string, a boolean, a number (the
  initial \<open>page: 1\<close> and \<open>sections_per_page: 50\<close>) or \<open>undefined\<close> (the semester
  selector passes the second component of \<open>value.split('-')\<close>, which is undefined for
  the entry "All Semesters"). Only whole numbers occur, so a number is an \<open>int\<close>.
\<close>

datatype jsval = JUndefined | JStr string | JBool bool | JNum int

text \<open>
  An object is the list of its own properties in insertion order, which is the order
  \<open>Object.entries\<close> visits them in; its keys are pairwise different.
\<close>

type_synonym SearchParams = "(string \<times> jsval) list"

fun get_prop :: "SearchParams \<Rightarrow> string \<Rightarrow> jsval" where
  "get_prop [] k = JUndefined"
| "get_prop ((k', v) # ps) k = (if k' = k then v else get_prop ps k)"

text \<open>
  Assignment of one property, as the object literal \<open>{ ...prev, [key]: value }\<close> does
  after copying \<open>prev\<close>: a key that exists keeps its place, a new key goes last.
\<close>

fun set_prop :: "string \<Rightarrow> jsval \<Rightarrow> SearchParams \<Rightarrow> SearchParams" where
  "set_prop k v [] = [(k, v)]"
| "set_prop k v ((k', v') # ps) =
     (if k' = k then (k, v) # ps else (k', v') # set_prop k v ps)"

definition initial_sections_per_page :: int where
  "initial_sections_per_page = 50"

definition initial_searchParams :: SearchParams where
  "initial_searchParams =
     [(''page'', JNum 1), (''sections_per_page'', JNum initial_sections_per_page)]"

subsection \<open>\<open>value.toString()\<close>\<close>

definition digit_char :: "nat \<Rightarrow> char" where
  "digit_char d = char_of (48 + d)"

fun show_nat :: "nat \<Rightarrow> string" where
  "show_nat n = (if n < 10 then [digit_char n] else show_nat (n div 10) @ [digit_char (n mod 10)])"

declare show_nat.simps [simp del]

definition show_int :: "int \<Rightarrow> string" where
  "show_int i = (if i < 0 then CHR ''-'' # show_nat (nat (- i)) else show_nat (nat i))"

text \<open>
  \<open>toString\<close> is only called on a value that passed the guard of \<open>debouncedSearch\<close>,
  so never on \<open>undefined\<close> (where JavaScript would throw a TypeError: the error value
  \<open>None\<close>).
\<close>

fun toString :: "jsval \<Rightarrow> string option" where
  "toString JUndefined = None"
| "toString (JStr s) = Some s"
| "toString (JBool b) = Some (if b then ''true'' else ''false'')"
| "toString (JNum i) = Some (show_int i)"

subsection \<open>\<open>debouncedSearch\<close>: the query parameters\<close>

text \<open>
  The guard \<open>value !== undefined && value !== '' && value !== false\<close>. The comparisons
  are strict, so the number \<open>0\<close> and the string \<open>'false'\<close> pass.
\<close>

definition is_sent :: "jsval \<Rightarrow> bool" where
  "is_sent v = (v \<noteq> JUndefined \<and> v \<noteq> JStr [] \<and> v \<noteq> JBool False)"

text \<open>
  One round of the \<open>forEach\<close> over \<open>Object.entries(params)\<close>: the
  \<open>URLSearchParams\<close> object is the list of the pairs appended so far. The result is
  \<open>None\<close> if \<open>toString\<close> would throw.
\<close>

fun append_param :: "string \<times> jsval \<Rightarrow> (string \<times> string) list option \<Rightarrow> (string \<times> string) list option" where
  "append_param (key, val) None = None"
| "append_param (key, val) (Some q) =
     (if is_sent val
      then (case toString val of None \<Rightarrow> None | Some s \<Rightarrow> Some (q @ [(key, s)]))
      else Some q)"

text \<open>
  The \<open>URLSearchParams\<close> object after the loop. The request URL is its serialisation
  by the platform, which keeps the pairs and their order.
\<close>

definition queryParams :: "SearchParams \<Rightarrow> (string \<times> string) list option" where
  "queryParams params = fold append_param params (Some [])"

subsection \<open>\<open>handleInputChange\<close>\<close>

text \<open>
  The two calls of \<open>setSearchParams\<close> pass updater functions, which React applies in
  the order of the calls, each to the state the one before produced.
\<close>

definition handleInputChange :: "string \<Rightarrow> jsval \<Rightarrow> SearchParams \<Rightarrow> SearchParams" where
  "handleInputChange key val prev =
     (let s1 = set_prop key val prev
      in if key = ''page'' then s1
         else set_prop ''page'' (JNum 1) (set_prop key val s1))"

subsection \<open>The instructor and room cells of the results table\<close>

record Schedule =
  sch_type :: string
  sch_days :: string
  sch_time :: string
  sch_start :: string
  sch_end :: string
  sch_room :: string
  sch_instructor :: string
  sch_id :: string

text \<open>\<open>Array.prototype.indexOf\<close>: the first index holding the value, or \<open>-1\<close>.\<close>

fun indexOf_from :: "int \<Rightarrow> 'a list \<Rightarrow> 'a \<Rightarrow> int" where
  "indexOf_from i [] x = - 1"
| "indexOf_from i (y # ys) x = (if y = x then i else indexOf_from (i + 1) ys x)"

definition indexOf :: "'a list \<Rightarrow> 'a \<Rightarrow> int" where
  "indexOf self x = indexOf_from 0 self x"

text \<open>
  \<open>.filter((x, index, self) => self.indexOf(x) === index)\<close>: the callback sees the
  element, its index and the whole array.
\<close>

fun filter_first_from :: "'a list \<Rightarrow> int \<Rightarrow> 'a list \<Rightarrow> 'a list" where
  "filter_first_from self index [] = []"
| "filter_first_from self index (x # xs) =
     (if indexOf self x = index then x # filter_first_from self (index + 1) xs
      else filter_first_from self (index + 1) xs)"

definition remove_duplicates :: "'a list \<Rightarrow> 'a list" where
  "remove_duplicates self = filter_first_from self 0 self"

text \<open>\<open>Array.prototype.join\<close> on an array of strings.\<close>

fun join :: "string \<Rightarrow> string list \<Rightarrow> string" where
  "join sep [] = []"
| "join sep [x] = x"
| "join sep (x # y # ys) = x @ sep @ join sep (y # ys)"

text \<open>The two cells of a row are computed from \<open>section.schedule\<close> alone.\<close>

definition instructor_list :: "Schedule list \<Rightarrow> string list" where
  "instructor_list schedule =
     remove_duplicates (map sch_instructor (filter (\<lambda>s. sch_type s \<noteq> ''Exam'') schedule))"

definition room_list :: "Schedule list \<Rightarrow> string list" where
  "room_list schedule =
     remove_duplicates (map sch_room (filter (\<lambda>s. sch_type s \<noteq> ''Exam'') schedule))"

text \<open>\<open>e || d\<close> on strings: the empty string is the only falsy one.\<close>

definition or_else :: "string \<Rightarrow> string \<Rightarrow> string" where
  "or_else s d = (if s = [] then d else s)"

definition instructor_cell :: "Schedule list \<Rightarrow> string" where
  "instructor_cell schedule = or_else (join '', '' (instructor_list schedule)) ''TBA''"

definition room_cell :: "Schedule list \<Rightarrow> string" where
  "room_cell schedule = or_else (join '', '' (room_list schedule)) ''Unknown''"

text \<open>
  The deduplication in the words of the specification: a scan that keeps a set of the
  values seen so far and emits a value the first time it meets it (the elements of a
  JavaScript \<open>Set\<close> built from the array, in insertion order).
\<close>

fun set_dedup :: "'a set \<Rightarrow> 'a list \<Rightarrow> 'a list" where
  "set_dedup seen [] = []"
| "set_dedup seen (x # xs) =
     (if x \<in> seen then set_dedup seen xs else x # set_dedup (insert x seen) xs)"

subsection \<open>Concrete inputs\<close>

text \<open>Search parameters and schedules at which the theorems below are evaluated.\<close>

definition example_params :: SearchParams where
  "example_params =
     [(''page'', JNum 1), (''sections_per_page'', JNum 50), (''subject'', JStr ''CPSC''),
      (''title_search'', JStr []), (''attr_ar'', JBool True), (''online'', JBool False),
      (''term'', JUndefined)]"

definition example_state :: SearchParams where
  "example_state =
     [(''page'', JStr ''3''), (''sections_per_page'', JNum 50), (''subject'', JStr ''CPSC'')]"

definition mk_schedule :: "string \<Rightarrow> string \<Rightarrow> string \<Rightarrow> Schedule" where
  "mk_schedule t i r =
     \<lparr>sch_type = t, sch_days = ''-T-R---'', sch_time = ''1030-1220'', sch_start = [],
      sch_end = [], sch_room = r, sch_instructor = i, sch_id = []\<rparr>"

definition example_schedule :: "Schedule list" where
  "example_schedule =
     [mk_schedule ''Lecture'' ''A. Lee'' ''B101'', mk_schedule ''Lab'' ''B. Roy'' ''B101'',
      mk_schedule ''Exam'' ''C. Kim'' ''GYM'', mk_schedule ''Lecture'' ''A. Lee'' ''A200'',
      mk_schedule ''Seminar'' ''D. Sun'' ''C300'', mk_schedule ''Lab'' ''B. Roy'' ''C300'']"

definition exam_only_schedule :: "Schedule list" where
  "exam_only_schedule = [mk_schedule ''Exam'' ''C. Kim'' ''GYM'']"

definition empty_name_schedule :: "Schedule list" where
  "empty_name_schedule = [mk_schedule ''Lecture'' [] []]"

section \<open>Timetable composer\<close>

subsection \<open>Data model\<close>

text \<open>
  Modelled from the spec: the declarations of \<open>Course\<close>, \<open>CourseInternal\<close> and
  \<open>Section\<close> (imported by \<open>composer.tsx\<close> from \<open>../../types/Course\<close> and
  \<open>../../types/Section\<close>) are not among the sources. The records follow the data model of the specification and keep
  the names of the fields \<open>composer.tsx\<close> reads; a prefix tells the fields of the
  different records apart.
\<close>

datatype weekday = Mon | Tue | Wed | Thu | Fri | Sat | Sun

text \<open>
  Modelled from the spec: a schedule entry (its declaration is not among the sources)
  has a set of days of the week, a start time and an end time (here minutes since
  midnight), a type, a room and an instructor. The type of an exam entry is the string
  \<open>Exam\<close>, as in the section browser.
\<close>

record ScheduleEntry =
  entry_days :: "weekday set"
  entry_start :: nat
  entry_end :: nat
  entry_type :: string
  entry_room :: string
  entry_instructor :: string

text \<open>
  Modelled from the spec: a section (\<open>../../types/Section\<close> is not among the sources)
  has an identifier, the subject and course code of its course (read by \<open>fetchData\<close>
  as \<open>section.subject\<close> and \<open>section.course_code\<close>), a list of schedule entries,
  seat and waitlist counts, instructor names and a delivery mode.
\<close>

record Section =
  sec_id :: string
  sec_subject :: string
  sec_course_code :: string
  sec_schedule :: "ScheduleEntry list"
  sec_seats :: nat
  sec_waitlist :: nat
  sec_instructors :: "string list"
  sec_online :: bool

text \<open>
  Modelled from the spec: a course (\<open>../../types/Course\<close> is not among the sources)
  has a subject code, a course number and the list of its sections, under the names
  \<open>fetchData\<close> uses.
\<close>

record Course =
  subject :: string
  course_code :: string
  sections :: "Section list"

subsection \<open>\<open>fetchData\<close>\<close>

text \<open>
  What the code can read off a parsed body under the name \<open>courses\<close> or \<open>sections\<close>:
  an array, or something \<open>forEach\<close> and \<open>filter\<close> cannot be called on (the field is
  missing, as in the body \<open>{"detail": "Not Found"}\<close>, or is no array, or the body is
  \<open>null\<close>); the call then throws a TypeError, whose message is kept. Modelled from the
  spec: the declarations \<open>CoursesResponse\<close> and \<open>SectionsResponse\<close> of the two
  envelopes are not among the sources; of an envelope \<open>fetchData\<close> reads this one
  field only. The elements of an array are taken at their declared types.
\<close>

datatype 'a Data = NoArray string | Array "'a list"

text \<open>
  The body of a response: \<open>response.json()\<close> rejects when the body is not JSON (with
  the message of the SyntaxError) and otherwise gives the data.
\<close>

datatype 'a Body = NotJson string | Json "'a Data"

text \<open>
  A response has a status, of which \<open>ok\<close> tells whether it is in the range 200 to 299,
  and a body. \<open>fetchData\<close> never reads \<open>ok\<close> or the status.
\<close>

record 'a Response =
  resp_ok :: bool
  resp_body :: "'a Body"

definition json :: "'a Response \<Rightarrow> string + 'a Data" where
  "json response = (case resp_body response of NotJson message \<Rightarrow> Inl message | Json data \<Rightarrow> Inr data)"

text \<open>
  \<open>fetch\<close> returns a promise that rejects on a network failure (\<open>Inl\<close> with the
  message of the error) and otherwise resolves to the response, whatever its status.
\<close>

type_synonym 'a Fetch = "string + 'a Response"

text \<open>
  \<open>Promise.all\<close> of two promises rejects as soon as one of them does, with the error
  of that one: when both reject, the error is that of the promise that settled first.
\<close>

datatype settled_first = CoursesFirst | SectionsFirst

fun promise_all :: "settled_first \<Rightarrow> string + 'a \<Rightarrow> string + 'b \<Rightarrow> string + ('a \<times> 'b)" where
  "promise_all ord (Inr a) (Inr b) = Inr (a, b)"
| "promise_all ord (Inl e) (Inr b) = Inl e"
| "promise_all ord (Inr a) (Inl e) = Inl e"
| "promise_all ord (Inl e1) (Inl e2) = Inl (case ord of CoursesFirst \<Rightarrow> e1 | SectionsFirst \<Rightarrow> e2)"

text \<open>
  The \<open>forEach\<close> over \<open>coursesData.courses\<close> assigns the field \<open>sections\<close> of each
  course object in turn; the objects come out of one JSON text, so no two are the same
  object.
\<close>

definition attach_sections :: "Section list \<Rightarrow> Course list \<Rightarrow> Course list" where
  "attach_sections fetched cs =
     map (\<lambda>course. course\<lparr>sections :=
            filter (\<lambda>section. sec_subject section = subject course
                             \<and> sec_course_code section = course_code course) fetched\<rparr>) cs"

text \<open>
  The statement \<open>coursesData.courses.forEach(...)\<close>: calling \<open>forEach\<close> throws when
  there is no array of courses; the callback, which runs once for each course, throws at
  the first course when there is no array of sections to call \<open>filter\<close> on, and does
  not run at all when there is no course. The result is the error thrown, or the courses
  as \<open>setCourses\<close> is given them.
\<close>

fun for_each_course :: "Course Data \<Rightarrow> Section Data \<Rightarrow> string + Course list" where
  "for_each_course (NoArray message) sectionsData = Inl message"
| "for_each_course (Array cs) (Array fetched) = Inr (attach_sections fetched cs)"
| "for_each_course (Array cs) (NoArray message) = (if cs = [] then Inr [] else Inl message)"

text \<open>The body of the \<open>try\<close> block: the error caught, or the argument of \<open>setCourses\<close>.\<close>

definition fetch_try ::
  "settled_first \<Rightarrow> Course Fetch \<Rightarrow> Section Fetch \<Rightarrow> string + Course list" where
  "fetch_try ord courses_fetch sections_fetch =
     (case promise_all ord courses_fetch sections_fetch of
        Inl err \<Rightarrow> Inl err
      | Inr (coursesResponse, sectionsResponse) \<Rightarrow>
          (case json coursesResponse of
             Inl err \<Rightarrow> Inl err
           | Inr coursesData \<Rightarrow>
               (case json sectionsResponse of
                  Inl err \<Rightarrow> Inl err
                | Inr sectionsData \<Rightarrow> for_each_course coursesData sectionsData)))"

text \<open>The state of the component \<open>Composer\<close>, one field for each \<open>useState\<close>.\<close>

record ComposerState =
  selectedCourses :: "Course list"
  currentTimetable :: "Section list"
  courses :: "Course list"
  isLoading :: bool
  error :: "string option"

definition initial_state :: ComposerState where
  "initial_state =
     \<lparr>selectedCourses = [], currentTimetable = [], courses = [], isLoading = True,
      error = None\<rparr>"

definition fetchData ::
  "settled_first \<Rightarrow> Course Fetch \<Rightarrow> Section Fetch \<Rightarrow> ComposerState \<Rightarrow> ComposerState" where
  "fetchData ord courses_fetch sections_fetch st =
     (case fetch_try ord courses_fetch sections_fetch of
        Inr cs \<Rightarrow> st\<lparr>courses := cs\<rparr>
      | Inl message \<Rightarrow> st\<lparr>error := Some (''Failed to fetch data: '' @ message)\<rparr>)
     \<lparr>isLoading := False\<rparr>"

text \<open>
  What \<open>Composer\<close> renders: the loading text, the error text, or the three panes, which
  are given the courses, the selected courses and the current timetable. The test
  \<open>if (error)\<close> is false for \<open>null\<close> and for the empty string.
\<close>

datatype View = LoadingView | ErrorView string | PanesView "Course list" "Course list" "Section list"

definition render :: "ComposerState \<Rightarrow> View" where
  "render st =
     (if isLoading st then LoadingView
      else (case error st of
              Some e \<Rightarrow> if e \<noteq> [] then ErrorView e
                        else PanesView (courses st) (selectedCourses st) (currentTimetable st)
            | None \<Rightarrow> PanesView (courses st) (selectedCourses st) (currentTimetable st)))"

text \<open>The ways in which a request can go wrong before the courses are stored.\<close>

fun rejected :: "'a Fetch \<Rightarrow> bool" where
  "rejected (Inl message) = True"
| "rejected (Inr response) = False"

fun not_json :: "'a Fetch \<Rightarrow> bool" where
  "not_json (Inl message) = False"
| "not_json (Inr response) = (case resp_body response of NotJson message \<Rightarrow> True | Json data \<Rightarrow> False)"

fun no_array :: "'a Fetch \<Rightarrow> bool" where
  "no_array (Inl message) = False"
| "no_array (Inr response) =
     (case resp_body response of Json (NoArray message) \<Rightarrow> True | Json (Array xs) \<Rightarrow> False
      | NotJson message \<Rightarrow> False)"

fun some_element :: "'a Fetch \<Rightarrow> bool" where
  "some_element (Inl message) = False"
| "some_element (Inr response) =
     (case resp_body response of Json (Array xs) \<Rightarrow> xs \<noteq> [] | Json (NoArray message) \<Rightarrow> False
      | NotJson message \<Rightarrow> False)"

subsection \<open>Course selector\<close>

text \<open>
  Modelled from the spec: the component \<open>SelectedCourses\<close>, which holds the operations
  on the Selection, is not among the sources. The Selection is an ordered set of the
  courses the user chose, unique by subject and course code.
\<close>

type_synonym Selection = "Course list"

text \<open>
  Modelled from the spec: the key of a course (in \<open>SelectedCourses\<close>, not among the
  sources) is its subject together with its course code.
\<close>

definition course_key :: "Course \<Rightarrow> string \<times> string" where
  "course_key c = (subject c, course_code c)"

text \<open>
  Modelled from the spec: \<open>add(course)\<close> (in \<open>SelectedCourses\<close>, not among the
  sources) appends the course to the Selection if it is not already present, and is a
  no-op otherwise.
\<close>

definition add :: "Course \<Rightarrow> Selection \<Rightarrow> Selection" where
  "add c sel = (if course_key c \<in> set (map course_key sel) then sel else sel @ [c])"

text \<open>
  Modelled from the spec: \<open>remove(courseKey)\<close> (in \<open>SelectedCourses\<close>, not among the
  sources) removes the matching course.
\<close>

definition remove :: "string \<times> string \<Rightarrow> Selection \<Rightarrow> Selection" where
  "remove k sel = filter (\<lambda>c. course_key c \<noteq> k) sel"

subsection \<open>Conflict test\<close>

text \<open>
  Modelled from the spec: the conflict test (in the component \<open>TimetableSections\<close>, not
  among the sources). Two entries conflict iff they share at least one day of the week
  and their half-open intervals from start to end overlap, that is, the later of the
  two starts lies before the earlier of the two ends.
\<close>

definition conflict :: "ScheduleEntry \<Rightarrow> ScheduleEntry \<Rightarrow> bool" where
  "conflict a b =
     (entry_days a \<inter> entry_days b \<noteq> {}
      \<and> max (entry_start a) (entry_start b) < min (entry_end a) (entry_end b))"

text \<open>
  Modelled from the spec: the entries the conflict test is applied to (in
  \<open>TimetableSections\<close>, not among the sources) are all schedule entries of the sections
  of a Combination, except the exam entries. A Combination is a list of sections, as
  the state \<open>currentTimetable\<close> of \<open>composer.tsx\<close> is.
\<close>

definition non_exam_entries :: "Section list \<Rightarrow> ScheduleEntry list" where
  "non_exam_entries cmb = filter (\<lambda>e. entry_type e \<noteq> ''Exam'') (concat (map sec_schedule cmb))"

text \<open>
  Modelled from the spec: the pairwise application of the conflict test (in
  \<open>TimetableSections\<close>, not among the sources): no entry conflicts with an entry after
  it in the list.
\<close>

fun conflict_free :: "ScheduleEntry list \<Rightarrow> bool" where
  "conflict_free [] = True"
| "conflict_free (e # es) = (list_all (\<lambda>f. \<not> conflict e f) es \<and> conflict_free es)"

text \<open>
  Modelled from the spec: the validity flag (in \<open>TimetableSections\<close>, not among the
  sources). A Combination is valid iff no pairwise conflict exists across its full set
  of entries other than exam entries.
\<close>

definition valid :: "Section list \<Rightarrow> bool" where
  "valid cmb = conflict_free (non_exam_entries cmb)"

subsection \<open>Combination enumerator\<close>

text \<open>
  Modelled from the spec: the component types of a course's sections (grouping happens
  in \<open>TimetableSections\<close>, not among the sources), each once, in the order in which
  they first occur.
\<close>

fun first_occurrences :: "'c list \<Rightarrow> 'c list" where
  "first_occurrences [] = []"
| "first_occurrences (x # xs) = x # first_occurrences (filter (\<lambda>y. y \<noteq> x) xs)"

text \<open>
  Modelled from the spec: the groups of one course (in \<open>TimetableSections\<close>, not among
  the sources). The sections of a course are grouped by component type, each group in
  the order of the course's sections. The component type of a section is a parameter
  \<open>ctype\<close>: the data model names no field for it, and data that does not distinguish
  component types is a constant \<open>ctype\<close>, which makes all sections of the course one
  group of alternatives. A course without sections is one group without alternatives,
  so that it leaves no combination.
\<close>

definition course_groups :: "(Section \<Rightarrow> 'c) \<Rightarrow> Course \<Rightarrow> Section list list" where
  "course_groups ctype c =
     (if sections c = [] then [[]]
      else map (\<lambda>k. filter (\<lambda>s. ctype s = k) (sections c))
             (first_occurrences (map ctype (sections c))))"

text \<open>
  Modelled from the spec: the course/component-type groups of a Selection (in
  \<open>TimetableSections\<close>, not among the sources), in the order of the Selection.
\<close>

definition groups :: "(Section \<Rightarrow> 'c) \<Rightarrow> Selection \<Rightarrow> Section list list" where
  "groups ctype sel = concat (map (course_groups ctype) sel)"

text \<open>
  Modelled from the spec: the cartesian product of the groups (in \<open>TimetableSections\<close>,
  not among the sources): one section of each group, in the order of the groups, the
  choice for the first group varying slowest.
\<close>

fun cartesian :: "'a list list \<Rightarrow> 'a list list" where
  "cartesian [] = [[]]"
| "cartesian (g # gs) = concat (map (\<lambda>s. map (\<lambda>cmb. s # cmb) (cartesian gs)) g)"

text \<open>
  Modelled from the spec: the Combination Enumerator (in \<open>TimetableSections\<close>, not
  among the sources) gives all combinations, conflict-free or not, each paired with its
  validity flag.
\<close>

definition Enumerator :: "(Section \<Rightarrow> 'c) \<Rightarrow> Selection \<Rightarrow> (Section list \<times> bool) list" where
  "Enumerator ctype sel = map (\<lambda>cmb. (cmb, valid cmb)) (cartesian (groups ctype sel))"

text \<open>
  The combination at position \<open>k\<close> of an enumeration, by positions alone: \<open>k\<close> is read
  as a number in the mixed radix of the group sizes, and each digit is the position of
  the chosen section in its group. This is what the order of the enumeration is
  compared with.
\<close>

fun nth_combination :: "'a list list \<Rightarrow> nat \<Rightarrow> 'a list" where
  "nth_combination [] k = []"
| "nth_combination (g # gs) k =
     (g ! (k div prod_list (map length gs))) # nth_combination gs (k mod prod_list (map length gs))"

subsection \<open>Concrete timetable data\<close>

text \<open>
  Sections in the manner of the scenarios of the specification: two sections of CPSC 1050
  on Monday at 9:00 and 9:30, two of MATH 1171 on Tuesday at 9:00 and on Monday and
  Wednesday at 9:30, and a course without sections.
\<close>

definition mk_entry :: "weekday set \<Rightarrow> nat \<Rightarrow> nat \<Rightarrow> string \<Rightarrow> ScheduleEntry" where
  "mk_entry ds s e t =
     \<lparr>entry_days = ds, entry_start = s, entry_end = e, entry_type = t,
      entry_room = ''B101'', entry_instructor = ''A. Lee''\<rparr>"

definition mk_section :: "string \<Rightarrow> string \<Rightarrow> string \<Rightarrow> ScheduleEntry list \<Rightarrow> Section" where
  "mk_section i subj code es =
     \<lparr>sec_id = i, sec_subject = subj, sec_course_code = code, sec_schedule = es,
      sec_seats = 10, sec_waitlist = 0, sec_instructors = [''A. Lee''], sec_online = False\<rparr>"

definition mk_course :: "string \<Rightarrow> string \<Rightarrow> Section list \<Rightarrow> Course" where
  "mk_course subj code ss = \<lparr>subject = subj, course_code = code, sections = ss\<rparr>"

definition S1 :: Section where
  "S1 = mk_section ''S1'' ''CPSC'' ''1050'' [mk_entry {Mon} 540 600 ''Lecture'']"

definition S2 :: Section where
  "S2 = mk_section ''S2'' ''CPSC'' ''1050'' [mk_entry {Mon} 570 630 ''Lecture'']"

definition S3 :: Section where
  "S3 = mk_section ''S3'' ''MATH'' ''1171'' [mk_entry {Tue} 540 600 ''Lecture'']"

definition S4 :: Section where
  "S4 = mk_section ''S4'' ''MATH'' ''1171'' [mk_entry {Mon, Wed} 570 630 ''Lecture'']"

definition S5 :: Section where
  "S5 = mk_section ''S5'' ''CPSC'' ''1150'' [mk_entry {Fri} 540 600 ''Lecture'']"

definition nine_to_ten :: ScheduleEntry where
  "nine_to_ten = mk_entry {Mon} 540 600 ''Lecture''"

definition ten_to_eleven :: ScheduleEntry where
  "ten_to_eleven = mk_entry {Mon} 600 660 ''Lab''"

definition half_past_nine :: ScheduleEntry where
  "half_past_nine = mk_entry {Mon, Wed} 570 630 ''Seminar''"

definition fetched_courses :: "Course Response" where
  "fetched_courses =
     \<lparr>resp_ok = True,
      resp_body = Json (Array [mk_course ''CPSC'' ''1050'' [], mk_course ''MATH'' ''1171'' []])\<rparr>"

definition fetched_sections :: "Section Response" where
  "fetched_sections = \<lparr>resp_ok = True, resp_body = Json (Array [S1, S3, S5, S2, S4])\<rparr>"

definition unparsable_sections :: "Section Response" where
  "unparsable_sections = \<lparr>resp_ok = True, resp_body = NotJson ''Unexpected token''\<rparr>"

definition no_courses :: "Course Response" where
  "no_courses = \<lparr>resp_ok = True, resp_body = Json (Array [])\<rparr>"

definition not_found_sections :: "Section Response" where
  "not_found_sections =
     \<lparr>resp_ok = False, resp_body = Json (NoArray ''sectionsData.sections is undefined'')\<rparr>"

definition error_status_sections :: "Section Response" where
  "error_status_sections = \<lparr>resp_ok = False, resp_body = Json (Array [S1, S3, S5, S2, S4])\<rparr>"

definition no_components :: "Section \<Rightarrow> unit" where
  "no_components s = ()"

definition CPSC1050 :: Course where
  "CPSC1050 = mk_course ''CPSC'' ''1050'' [S1, S2]"

definition MATH1171 :: Course where
  "MATH1171 = mk_course ''MATH'' ''1171'' [S3, S4]"

definition CPSC1150 :: Course where
  "CPSC1150 = mk_course ''CPSC'' ''1150'' []"

definition combination_sets :: "(Section list \<times> bool) list \<Rightarrow> Section set list" where
  "combination_sets cs = map (\<lambda>(cmb, ok). set cmb) cs"

definition example_selection :: Selection where
  "example_selection = [CPSC1050, MATH1171]"

definition selection_without_sections :: Selection where
  "selection_without_sections = [MATH1171, CPSC1150]"

definition renamed_selection :: Selection where
  "renamed_selection = [mk_course ''CPSC'' ''1051'' [S1, S2], mk_course ''MATH'' ''1172'' [S3, S4]]"

section \<open>Properties of the section search browser\<close>

subsection \<open>The query parameters\<close>

lemma fold_append_param:
  "\<exists>r. fold append_param ps (Some q) = Some (q @ r) \<and>
       list_all2 (\<lambda>(k, s) (k', v). k = k' \<and> toString v = Some s) r (filter (\<lambda>(k, v). is_sent v) ps)"
proof (induction ps arbitrary: q)
  case Nil
  then show ?case by simp
next
  case (Cons p ps)
  obtain k v where p: "p = (k, v)" by (cases p)
  show ?case
  proof (cases "is_sent v")
    case False
    with Cons.IH [of q] p show ?thesis by simp
  next
    case True
    then obtain s where s: "toString v = Some s" by (cases v) (auto simp: is_sent_def)
    from Cons.IH [of "q @ [(k, s)]"] obtain r where
      r: "fold append_param ps (Some (q @ [(k, s)])) = Some ((q @ [(k, s)]) @ r)"
         "list_all2 (\<lambda>(k, s) (k', v). k = k' \<and> toString v = Some s) r (filter (\<lambda>(k, v). is_sent v) ps)"
      by blast
    have "fold append_param (p # ps) (Some q) = Some (q @ ((k, s) # r))"
      using r(1) True s p by simp
    moreover have "list_all2 (\<lambda>(k, s) (k', v). k = k' \<and> toString v = Some s) ((k, s) # r)
        (filter (\<lambda>(k, v). is_sent v) (p # ps))"
      using r(2) True s p by simp
    ultimately show ?thesis by blast
  qed
qed

lemma sent_pairs_eq:
  "list_all2 (\<lambda>(k, s) (k', v). k = k' \<and> toString v = Some s) q ps \<Longrightarrow>
     map fst q = map fst ps \<and>
     set q = {(k, s). \<exists>v. (k, v) \<in> set ps \<and> toString v = Some s}"
  by (induction q ps rule: list_all2_induct) auto

text \<open>
  Claim C6. For every search-parameters object, building the query parameters succeeds,
  and the parameters appended are exactly, and in the order of the object, those whose
  value is defined, not the empty string and not \<open>false\<close>, each with the text of its
  value; a parameter that is \<open>false\<close> is left out, one that is \<open>true\<close> is sent as
  \<open>true\<close>.
\<close>

theorem queryParams_exactly_sent:
  "\<exists>q. queryParams params = Some q
     \<and> map fst q = map fst (filter (\<lambda>(k, v). v \<noteq> JUndefined \<and> v \<noteq> JStr [] \<and> v \<noteq> JBool False) params)
     \<and> (\<forall>k s. (k, s) \<in> set q \<longleftrightarrow>
           (\<exists>v. (k, v) \<in> set params \<and> v \<noteq> JUndefined \<and> v \<noteq> JStr [] \<and> v \<noteq> JBool False
                \<and> toString v = Some s))
     \<and> (\<forall>k. distinct (map fst params) \<and> (k, JBool False) \<in> set params \<longrightarrow> k \<notin> fst ` set q)
     \<and> (\<forall>k. (k, JBool True) \<in> set params \<longrightarrow> (k, ''true'') \<in> set q)"
proof -
  let ?F = "filter (\<lambda>(k, v). is_sent v) params"
  from fold_append_param [of params "[]"] obtain q where
    q: "queryParams params = Some q"
    and rel: "list_all2 (\<lambda>(k, s) (k', v). k = k' \<and> toString v = Some s) q ?F"
    by (auto simp: queryParams_def)
  have F: "?F = filter (\<lambda>(k, v). v \<noteq> JUndefined \<and> v \<noteq> JStr [] \<and> v \<noteq> JBool False) params"
    by (simp add: is_sent_def)
  have keys: "map fst q = map fst ?F"
    and mem: "set q = {(k, s). \<exists>v. (k, v) \<in> set ?F \<and> toString v = Some s}"
    using sent_pairs_eq [OF rel] by simp_all
  have c2: "\<forall>k s. (k, s) \<in> set q \<longleftrightarrow>
           (\<exists>v. (k, v) \<in> set params \<and> v \<noteq> JUndefined \<and> v \<noteq> JStr [] \<and> v \<noteq> JBool False
                \<and> toString v = Some s)"
    unfolding mem by (auto simp: is_sent_def)
  have c3: "\<forall>k. distinct (map fst params) \<and> (k, JBool False) \<in> set params \<longrightarrow> k \<notin> fst ` set q"
  proof (intro allI impI notI)
    fix k assume a: "distinct (map fst params) \<and> (k, JBool False) \<in> set params"
      and "k \<in> fst ` set q"
    then obtain s where "(k, s) \<in> set q" by auto
    with c2 obtain v where v: "(k, v) \<in> set params" "v \<noteq> JBool False" by blast
    from a v(1) have "v = JBool False"
      by (meson eq_key_imp_eq_value)
    with v(2) show False by simp
  qed
  have c4: "\<forall>k. (k, JBool True) \<in> set params \<longrightarrow> (k, ''true'') \<in> set q"
    using c2 by auto
  from q keys c2 c3 c4 show ?thesis
    unfolding F by blast
qed

lemma queryParams_example:
  "queryParams example_params =
     Some [(''page'', ''1''), (''sections_per_page'', ''50''), (''subject'', ''CPSC''),
           (''attr_ar'', ''true'')]"
  by code_simp

text \<open>The theorem at an object that has a false, a true, an empty and an undefined field.\<close>

theorem queryParams_exactly_sent_witness:
  "distinct (map fst example_params) \<and> (''online'', JBool False) \<in> set example_params
   \<and> (''attr_ar'', JBool True) \<in> set example_params
   \<and> queryParams example_params =
       Some [(''page'', ''1''), (''sections_per_page'', ''50''), (''subject'', ''CPSC''),
             (''attr_ar'', ''true'')]
   \<and> ''online'' \<notin> fst ` set (the (queryParams example_params))
   \<and> (''attr_ar'', ''true'') \<in> set (the (queryParams example_params))"
proof -
  have d: "distinct (map fst example_params)"
    and f: "(''online'', JBool False) \<in> set example_params"
    and t: "(''attr_ar'', JBool True) \<in> set example_params"
    by (simp_all add: example_params_def)
  from queryParams_exactly_sent [of example_params] obtain q where
    q: "queryParams example_params = Some q"
    and no_false: "\<forall>k. distinct (map fst example_params) \<and> (k, JBool False) \<in> set example_params
          \<longrightarrow> k \<notin> fst ` set q"
    and all_true: "\<forall>k. (k, JBool True) \<in> set example_params \<longrightarrow> (k, ''true'') \<in> set q"
    by blast
  from no_false d f have "''online'' \<notin> fst ` set q" by blast
  moreover from all_true t have "(''attr_ar'', ''true'') \<in> set q" by blast
  ultimately show ?thesis
    using d f t q queryParams_example by simp
qed

subsection \<open>Updating the search parameters\<close>

lemma get_set_prop_same: "get_prop (set_prop k v ps) k = v"
  by (induction ps) auto

lemma get_set_prop_other: "k' \<noteq> k \<Longrightarrow> get_prop (set_prop k v ps) k' = get_prop ps k'"
  by (induction ps) auto

lemma filter_set_prop:
  "\<not> P k \<Longrightarrow> filter (\<lambda>(k', v'). P k') (set_prop k v ps) = filter (\<lambda>(k', v'). P k') ps"
  by (induction ps) auto

lemma keys_set_prop:
  "map fst (set_prop k v ps) = (if k \<in> fst ` set ps then map fst ps else map fst ps @ [k])"
  by (induction ps) force+

lemma distinct_set_prop: "distinct (map fst ps) \<Longrightarrow> distinct (map fst (set_prop k v ps))"
  by (simp add: keys_set_prop)

text \<open>
  Claim C10. An update of a key other than \<open>page\<close> leaves \<open>page\<close> at the number 1 and
  the key at the new value, and every other field as it was (the other entries are the
  same list, in the same order); an update of \<open>page\<close> changes \<open>page\<close> only.
\<close>

theorem handleInputChange_frame:
  "(key \<noteq> ''page'' \<longrightarrow>
      get_prop (handleInputChange key val prev) ''page'' = JNum 1
    \<and> get_prop (handleInputChange key val prev) key = val
    \<and> (\<forall>k. k \<noteq> key \<and> k \<noteq> ''page'' \<longrightarrow>
          get_prop (handleInputChange key val prev) k = get_prop prev k)
    \<and> filter (\<lambda>(k, v). k \<noteq> key \<and> k \<noteq> ''page'') (handleInputChange key val prev)
        = filter (\<lambda>(k, v). k \<noteq> key \<and> k \<noteq> ''page'') prev)
   \<and> (key = ''page'' \<longrightarrow>
      get_prop (handleInputChange key val prev) ''page'' = val
    \<and> (\<forall>k. k \<noteq> ''page'' \<longrightarrow> get_prop (handleInputChange key val prev) k = get_prop prev k)
    \<and> filter (\<lambda>(k, v). k \<noteq> ''page'') (handleInputChange key val prev)
        = filter (\<lambda>(k, v). k \<noteq> ''page'') prev)"
proof (cases "key = ''page''")
  case True
  have "filter (\<lambda>(k, v). k \<noteq> ''page'') (set_prop ''page'' val prev)
      = filter (\<lambda>(k, v). k \<noteq> ''page'') prev"
    by (rule filter_set_prop) simp
  with True show ?thesis
    by (simp add: handleInputChange_def get_set_prop_same get_set_prop_other)
next
  case False
  let ?P = "\<lambda>k. k \<noteq> key \<and> k \<noteq> ''page''"
  have "filter (\<lambda>(k, v). ?P k) (set_prop ''page'' (JNum 1) (set_prop key val (set_prop key val prev)))
      = filter (\<lambda>(k, v). ?P k) prev"
    by (simp add: filter_set_prop [of ?P])
  with False show ?thesis
    by (simp add: handleInputChange_def Let_def get_set_prop_same get_set_prop_other)
qed

text \<open>The theorem at an update of \<open>online\<close> and at an update of \<open>page\<close>.\<close>

theorem handleInputChange_frame_witness:
  "''online'' \<noteq> ''page''
   \<and> get_prop (handleInputChange ''online'' (JBool True) example_state) ''page'' = JNum 1
   \<and> get_prop (handleInputChange ''online'' (JBool True) example_state) ''online'' = JBool True
   \<and> get_prop (handleInputChange ''online'' (JBool True) example_state) ''subject'' = JStr ''CPSC''
   \<and> get_prop (handleInputChange ''page'' (JStr ''4'') example_state) ''page'' = JStr ''4''
   \<and> get_prop (handleInputChange ''page'' (JStr ''4'') example_state) ''subject'' = JStr ''CPSC''"
  using handleInputChange_frame [of "''online''" "JBool True" example_state]
    handleInputChange_frame [of "''page''" "JStr ''4''" example_state]
  by (simp add: example_state_def)

subsection \<open>Removing duplicates\<close>

lemma indexOf_from_absent: "x \<notin> set ys \<Longrightarrow> indexOf_from i ys x = - 1"
  by (induction ys arbitrary: i) auto

lemma indexOf_from_present:
  "x \<in> set ys \<Longrightarrow> indexOf_from i ys x = i + int (length (takeWhile (\<lambda>y. y \<noteq> x) ys))"
  by (induction ys arbitrary: i) auto

lemma length_takeWhile_present:
  "x \<in> set ys \<Longrightarrow> length (takeWhile (\<lambda>y. y \<noteq> x) ys) < length ys"
  by (induction ys) auto

lemma takeWhile_first:
  "x \<notin> set pre \<Longrightarrow> takeWhile (\<lambda>y. y \<noteq> x) (pre @ x # xs) = pre"
  by (induction pre) auto

lemma indexOf_first:
  "(indexOf (pre @ x # xs) x = int (length pre)) = (x \<notin> set pre)"
proof (cases "x \<in> set pre")
  case True
  then have "takeWhile (\<lambda>y. y \<noteq> x) (pre @ x # xs) = takeWhile (\<lambda>y. y \<noteq> x) pre"
    by simp
  moreover have "length (takeWhile (\<lambda>y. y \<noteq> x) pre) < length pre"
    using True by (rule length_takeWhile_present)
  ultimately show ?thesis
    using True by (simp add: indexOf_def indexOf_from_present)
next
  case False
  then have "takeWhile (\<lambda>y. y \<noteq> x) (pre @ x # xs) = pre"
    by (rule takeWhile_first)
  then show ?thesis
    using False by (simp add: indexOf_def indexOf_from_present)
qed

lemma filter_first_from_set_dedup:
  "filter_first_from (pre @ xs) (int (length pre)) xs = set_dedup (set pre) xs"
proof (induction xs arbitrary: pre)
  case Nil
  then show ?case by simp
next
  case (Cons x xs)
  have step: "filter_first_from ((pre @ [x]) @ xs) (int (length (pre @ [x]))) xs
      = set_dedup (set (pre @ [x])) xs"
    by (rule Cons.IH)
  have ins: "x \<in> set pre \<Longrightarrow> insert x (set pre) = set pre" by auto
  show ?case
    using step indexOf_first [of pre x xs] by (auto simp: ins add.commute)
qed

lemma remove_duplicates_set_dedup: "remove_duplicates xs = set_dedup {} xs"
  using filter_first_from_set_dedup [of "[]" xs] by (simp add: remove_duplicates_def)

lemma set_set_dedup: "set (set_dedup seen xs) = set xs - seen"
  by (induction xs arbitrary: seen) auto

lemma distinct_set_dedup: "distinct (set_dedup seen xs)"
  by (induction xs arbitrary: seen) (auto simp: set_set_dedup)

lemma set_dedup_filter:
  "set_dedup seen xs = set_dedup {} (filter (\<lambda>x. x \<notin> seen) xs)"
proof (induction "length xs" arbitrary: xs seen rule: less_induct)
  case less
  show ?case
  proof (cases xs)
    case Nil
    then show ?thesis by simp
  next
    case (Cons x ys)
    show ?thesis
    proof (cases "x \<in> seen")
      case True
      with Cons less [of ys seen] show ?thesis by simp
    next
      case False
      have "length (filter (\<lambda>x. x \<notin> seen) ys) < length xs"
        using Cons by (simp add: le_imp_less_Suc)
      from less [OF this, of "{x}"] less [of ys "insert x seen"] Cons False
      show ?thesis by (simp add: conj_commute)
    qed
  qed
qed

lemma remdups_snoc:
  "remdups (xs @ [x]) = remdups (filter (\<lambda>y. y \<noteq> x) xs) @ [x]"
  by (induction xs) auto

lemma set_dedup_first_occurrence: "set_dedup {} xs = rev (remdups (rev xs))"
proof (induction "length xs" arbitrary: xs rule: less_induct)
  case less
  show ?case
  proof (cases xs)
    case Nil
    then show ?thesis by simp
  next
    case (Cons x ys)
    have len: "length (filter (\<lambda>y. y \<noteq> x) ys) < length xs"
      using Cons by (simp add: le_imp_less_Suc)
    have "set_dedup {} xs = x # set_dedup {x} ys"
      using Cons by simp
    also have "set_dedup {x} ys = set_dedup {} (filter (\<lambda>y. y \<noteq> x) ys)"
      using set_dedup_filter [of "{x}" ys] by simp
    also have "\<dots> = rev (remdups (rev (filter (\<lambda>y. y \<noteq> x) ys)))"
      by (rule less [OF len])
    finally show ?thesis
      using Cons by (simp add: remdups_snoc rev_filter)
  qed
qed

subsection \<open>The instructor and room cells\<close>

lemma join_text: "join sep (x # rest) = x @ concat (map (\<lambda>y. sep @ y) rest)"
  by (induction rest arbitrary: x) simp_all

lemma join_empty_iff:
  "sep \<noteq> [] \<Longrightarrow> join sep xs = [] \<longleftrightarrow> xs = [] \<or> xs = [[]]"
  by (cases xs) (auto simp: join_text)

lemma cell_fallback:
  "sep \<noteq> [] \<Longrightarrow> xs = [] \<or> xs = [[]] \<Longrightarrow> or_else (join sep xs) d = d"
  by (auto simp: or_else_def)

lemma cell_text:
  assumes "sep \<noteq> []" and "xs = x # rest" and "xs \<noteq> [[]]"
  shows "or_else (join sep xs) d = x @ concat (map (\<lambda>y. sep @ y) rest)"
proof -
  have joined: "join sep xs = x @ concat (map (\<lambda>y. sep @ y) rest)"
    unfolding assms(2) by (rule join_text)
  have "join sep xs \<noteq> []"
    using join_empty_iff [OF assms(1), of xs] assms(2,3) by simp
  then have "or_else (join sep xs) d = join sep xs"
    by (simp only: or_else_def if_False)
  from this joined show ?thesis
    by (rule trans)
qed

lemma example_cells:
  "instructor_list example_schedule = [''A. Lee'', ''B. Roy'', ''D. Sun'']"
  "room_list example_schedule = [''B101'', ''A200'', ''C300'']"
  "instructor_list exam_only_schedule = []"
  "room_list exam_only_schedule = []"
  "instructor_list empty_name_schedule = [[]]"
  "room_list empty_name_schedule = [[]]"
  by code_simp+

text \<open>
  Claim C9, as stated, fails: the fallback text is chosen by the joined text, not by the
  list. The schedule of one lecture whose instructor and room are the empty string has
  lists that are not empty, and its cells show \<open>TBA\<close> and \<open>Unknown\<close>, not the joined
  text, which is empty.
\<close>

theorem cells_empty_name_counterexample:
  "instructor_list empty_name_schedule = [[]] \<and> instructor_list empty_name_schedule \<noteq> []
   \<and> instructor_cell empty_name_schedule = ''TBA''
   \<and> room_list empty_name_schedule = [[]] \<and> room_list empty_name_schedule \<noteq> []
   \<and> room_cell empty_name_schedule = ''Unknown''"
  by (simp add: example_cells instructor_cell_def room_cell_def or_else_def)

text \<open>
  Claim C9, amended. The instructor list and the room list of a section are the
  instructors and rooms of its schedule entries other than those of type \<open>Exam\<close>, with
  duplicates removed as a scan with a set of seen values removes them: each value once,
  at its first occurrence. The cell shows the values of the list in their order, each
  after the first preceded by a comma and a space; when that text is empty, which is
  when the list is empty or holds the empty string alone, the instructor cell shows
  \<open>TBA\<close> and the room cell shows \<open>Unknown\<close>.
\<close>

theorem cells_deduplicated:
  "instructor_list schedule
     = set_dedup {} (map sch_instructor (filter (\<lambda>s. sch_type s \<noteq> ''Exam'') schedule))
   \<and> room_list schedule
     = set_dedup {} (map sch_room (filter (\<lambda>s. sch_type s \<noteq> ''Exam'') schedule))
   \<and> instructor_list schedule
     = rev (remdups (rev (map sch_instructor (filter (\<lambda>s. sch_type s \<noteq> ''Exam'') schedule))))
   \<and> room_list schedule
     = rev (remdups (rev (map sch_room (filter (\<lambda>s. sch_type s \<noteq> ''Exam'') schedule))))
   \<and> distinct (instructor_list schedule) \<and> distinct (room_list schedule)
   \<and> set (instructor_list schedule) = sch_instructor ` {s \<in> set schedule. sch_type s \<noteq> ''Exam''}
   \<and> set (room_list schedule) = sch_room ` {s \<in> set schedule. sch_type s \<noteq> ''Exam''}
   \<and> (instructor_list schedule = [] \<or> instructor_list schedule = [[]] \<longrightarrow>
        instructor_cell schedule = ''TBA'')
   \<and> (room_list schedule = [] \<or> room_list schedule = [[]] \<longrightarrow>
        room_cell schedule = ''Unknown'')
   \<and> (\<forall>x rest. instructor_list schedule = x # rest \<and> instructor_list schedule \<noteq> [[]] \<longrightarrow>
        instructor_cell schedule = x @ concat (map (\<lambda>y. '', '' @ y) rest))
   \<and> (\<forall>x rest. room_list schedule = x # rest \<and> room_list schedule \<noteq> [[]] \<longrightarrow>
        room_cell schedule = x @ concat (map (\<lambda>y. '', '' @ y) rest))"
proof -
  have i: "instructor_list schedule
     = set_dedup {} (map sch_instructor (filter (\<lambda>s. sch_type s \<noteq> ''Exam'') schedule))"
    by (simp add: instructor_list_def remove_duplicates_set_dedup)
  have r: "room_list schedule
     = set_dedup {} (map sch_room (filter (\<lambda>s. sch_type s \<noteq> ''Exam'') schedule))"
    by (simp add: room_list_def remove_duplicates_set_dedup)
  have si: "set (instructor_list schedule) = sch_instructor ` {s \<in> set schedule. sch_type s \<noteq> ''Exam''}"
    unfolding i by (simp add: set_set_dedup)
  have sr: "set (room_list schedule) = sch_room ` {s \<in> set schedule. sch_type s \<noteq> ''Exam''}"
    unfolding r by (simp add: set_set_dedup)
  have di: "distinct (instructor_list schedule)" unfolding i by (rule distinct_set_dedup)
  have dr: "distinct (room_list schedule)" unfolding r by (rule distinct_set_dedup)
  have fi: "instructor_list schedule
     = rev (remdups (rev (map sch_instructor (filter (\<lambda>s. sch_type s \<noteq> ''Exam'') schedule))))"
    unfolding i by (rule set_dedup_first_occurrence)
  have fr: "room_list schedule
     = rev (remdups (rev (map sch_room (filter (\<lambda>s. sch_type s \<noteq> ''Exam'') schedule))))"
    unfolding r by (rule set_dedup_first_occurrence)
  have ne: "'', '' \<noteq> []" by simp
  have ci: "instructor_list schedule = [] \<or> instructor_list schedule = [[]] \<longrightarrow>
        instructor_cell schedule = ''TBA''"
    unfolding instructor_cell_def using cell_fallback [OF ne] by blast
  have cr: "room_list schedule = [] \<or> room_list schedule = [[]] \<longrightarrow>
        room_cell schedule = ''Unknown''"
    unfolding room_cell_def using cell_fallback [OF ne] by blast
  have ji: "\<forall>x rest. instructor_list schedule = x # rest \<and> instructor_list schedule \<noteq> [[]] \<longrightarrow>
        instructor_cell schedule = x @ concat (map (\<lambda>y. '', '' @ y) rest)"
    unfolding instructor_cell_def using cell_text [OF ne] by blast
  have jr: "\<forall>x rest. room_list schedule = x # rest \<and> room_list schedule \<noteq> [[]] \<longrightarrow>
        room_cell schedule = x @ concat (map (\<lambda>y. '', '' @ y) rest)"
    unfolding room_cell_def using cell_text [OF ne] by blast
  from i r fi fr di dr si sr ci cr ji jr show ?thesis by blast
qed

text \<open>
  The theorem at a schedule of exams only, at the schedule with the empty names and at a
  schedule with three instructors and three rooms, each of them repeated.
\<close>

theorem cells_deduplicated_witness:
  "instructor_list exam_only_schedule = [] \<and> instructor_cell exam_only_schedule = ''TBA''
   \<and> room_list exam_only_schedule = [] \<and> room_cell exam_only_schedule = ''Unknown''
   \<and> instructor_list empty_name_schedule = [[]] \<and> instructor_cell empty_name_schedule = ''TBA''
   \<and> instructor_list example_schedule = [''A. Lee'', ''B. Roy'', ''D. Sun'']
   \<and> instructor_cell example_schedule = ''A. Lee, B. Roy, D. Sun''
   \<and> room_list example_schedule = [''B101'', ''A200'', ''C300'']
   \<and> room_cell example_schedule = ''B101, A200, C300''"
proof -
  from cells_deduplicated [of exam_only_schedule]
  have "instructor_list exam_only_schedule = [] \<or> instructor_list exam_only_schedule = [[]] \<longrightarrow>
        instructor_cell exam_only_schedule = ''TBA''"
    and "room_list exam_only_schedule = [] \<or> room_list exam_only_schedule = [[]] \<longrightarrow>
        room_cell exam_only_schedule = ''Unknown''"
    by blast+
  then have empty: "instructor_cell exam_only_schedule = ''TBA''"
      "room_cell exam_only_schedule = ''Unknown''"
    by (simp_all add: example_cells)
  from cells_deduplicated [of empty_name_schedule]
  have "instructor_list empty_name_schedule = [] \<or> instructor_list empty_name_schedule = [[]] \<longrightarrow>
        instructor_cell empty_name_schedule = ''TBA''"
    by blast
  then have blank: "instructor_cell empty_name_schedule = ''TBA''"
    by (simp add: example_cells)
  from cells_deduplicated [of example_schedule]
  have "\<forall>x rest. instructor_list example_schedule = x # rest \<and> instructor_list example_schedule \<noteq> [[]] \<longrightarrow>
        instructor_cell example_schedule = x @ concat (map (\<lambda>y. '', '' @ y) rest)"
    and "\<forall>x rest. room_list example_schedule = x # rest \<and> room_list example_schedule \<noteq> [[]] \<longrightarrow>
        room_cell example_schedule = x @ concat (map (\<lambda>y. '', '' @ y) rest)"
    by blast+
  then have full: "instructor_cell example_schedule = ''A. Lee, B. Roy, D. Sun''"
      "room_cell example_schedule = ''B101, A200, C300''"
    by (simp_all add: example_cells)
  from empty blank full show ?thesis
    by (simp add: example_cells)
qed

section \<open>Properties of the timetable composer\<close>

subsection \<open>\<open>fetchData\<close>\<close>

lemma attach_sections_nth:
  "c \<in> set (attach_sections fetched cs) \<Longrightarrow>
     sections c = filter (\<lambda>s. sec_subject s = subject c \<and> sec_course_code s = course_code c) fetched"
  by (auto simp: attach_sections_def)

lemma attach_sections_keys:
  "map subject (attach_sections fetched cs) = map subject cs"
  "map course_code (attach_sections fetched cs) = map course_code cs"
  by (simp_all add: attach_sections_def comp_def)

text \<open>
  Claim C7. When both requests resolve and both bodies are JSON holding the two arrays,
  the courses that \<open>fetchData\<close> stores are the fetched courses, in their order and with
  their subjects and course codes, and the sections of every one of them are exactly the
  fetched sections whose subject and course code both equal the course's, in the order
  of the sections response.
\<close>

theorem fetchData_attaches_matching_sections:
  assumes "resp_body coursesResponse = Json (Array fetched_cs)"
    and "resp_body sectionsResponse = Json (Array fetched_ss)"
  shows "courses (fetchData ord (Inr coursesResponse) (Inr sectionsResponse) st)
     = attach_sections fetched_ss fetched_cs
   \<and> map subject (courses (fetchData ord (Inr coursesResponse) (Inr sectionsResponse) st))
     = map subject fetched_cs
   \<and> map course_code (courses (fetchData ord (Inr coursesResponse) (Inr sectionsResponse) st))
     = map course_code fetched_cs
   \<and> (\<forall>c \<in> set (courses (fetchData ord (Inr coursesResponse) (Inr sectionsResponse) st)).
         sections c = filter (\<lambda>s. sec_subject s = subject c \<and> sec_course_code s = course_code c)
                        fetched_ss)
   \<and> error (fetchData ord (Inr coursesResponse) (Inr sectionsResponse) st) = error st
   \<and> \<not> isLoading (fetchData ord (Inr coursesResponse) (Inr sectionsResponse) st)"
proof -
  have c: "courses (fetchData ord (Inr coursesResponse) (Inr sectionsResponse) st)
     = attach_sections fetched_ss fetched_cs"
    using assms by (simp add: fetchData_def fetch_try_def json_def)
  have e: "error (fetchData ord (Inr coursesResponse) (Inr sectionsResponse) st) = error st"
    "\<not> isLoading (fetchData ord (Inr coursesResponse) (Inr sectionsResponse) st)"
    using assms by (simp_all add: fetchData_def fetch_try_def json_def)
  have k: "map subject (courses (fetchData ord (Inr coursesResponse) (Inr sectionsResponse) st))
     = map subject fetched_cs"
    "map course_code (courses (fetchData ord (Inr coursesResponse) (Inr sectionsResponse) st))
     = map course_code fetched_cs"
    unfolding c by (rule attach_sections_keys)+
  have s: "\<forall>c \<in> set (courses (fetchData ord (Inr coursesResponse) (Inr sectionsResponse) st)).
         sections c = filter (\<lambda>s. sec_subject s = subject c \<and> sec_course_code s = course_code c)
                        fetched_ss"
    unfolding c using attach_sections_nth by blast
  from c k s e show ?thesis
    by blast
qed

text \<open>The theorem at two courses and five sections, one of them of a third course.\<close>

theorem fetchData_attaches_matching_sections_witness:
  "resp_body fetched_courses
     = Json (Array [mk_course ''CPSC'' ''1050'' [], mk_course ''MATH'' ''1171'' []])
   \<and> resp_body fetched_sections = Json (Array [S1, S3, S5, S2, S4])
   \<and> mk_course ''CPSC'' ''1050'' [S1, S2]
     \<in> set (courses (fetchData CoursesFirst (Inr fetched_courses) (Inr fetched_sections) initial_state))
   \<and> sections (mk_course ''CPSC'' ''1050'' [S1, S2])
     = filter (\<lambda>s. sec_subject s = ''CPSC'' \<and> sec_course_code s = ''1050'') [S1, S3, S5, S2, S4]
   \<and> courses (fetchData CoursesFirst (Inr fetched_courses) (Inr fetched_sections) initial_state)
     = [mk_course ''CPSC'' ''1050'' [S1, S2], mk_course ''MATH'' ''1171'' [S3, S4]]"
proof -
  have bc: "resp_body fetched_courses
     = Json (Array [mk_course ''CPSC'' ''1050'' [], mk_course ''MATH'' ''1171'' []])"
    and bs: "resp_body fetched_sections = Json (Array [S1, S3, S5, S2, S4])"
    by (simp_all add: fetched_courses_def fetched_sections_def)
  have cs: "courses (fetchData CoursesFirst (Inr fetched_courses) (Inr fetched_sections) initial_state)
     = [mk_course ''CPSC'' ''1050'' [S1, S2], mk_course ''MATH'' ''1171'' [S3, S4]]"
    by (simp add: fetchData_def fetch_try_def json_def attach_sections_def fetched_courses_def
        fetched_sections_def mk_course_def mk_section_def S1_def S2_def S3_def S4_def S5_def)
  then have m: "mk_course ''CPSC'' ''1050'' [S1, S2]
     \<in> set (courses (fetchData CoursesFirst (Inr fetched_courses) (Inr fetched_sections) initial_state))"
    by simp
  from fetchData_attaches_matching_sections [OF bc bs, of CoursesFirst initial_state] m
  have "sections (mk_course ''CPSC'' ''1050'' [S1, S2])
     = filter (\<lambda>s. sec_subject s = subject (mk_course ''CPSC'' ''1050'' [S1, S2])
                   \<and> sec_course_code s = course_code (mk_course ''CPSC'' ''1050'' [S1, S2]))
         [S1, S3, S5, S2, S4]"
    by blast
  then have "sections (mk_course ''CPSC'' ''1050'' [S1, S2])
     = filter (\<lambda>s. sec_subject s = ''CPSC'' \<and> sec_course_code s = ''1050'') [S1, S3, S5, S2, S4]"
    by (simp add: mk_course_def)
  with bc bs m cs show ?thesis by blast
qed

lemma for_each_course_fails:
  "(\<exists>m. for_each_course cd sd = Inl m)
     \<longleftrightarrow> (\<exists>m. cd = NoArray m) \<or> (\<exists>m c cs. sd = NoArray m \<and> cd = Array (c # cs))"
  by (cases "(cd, sd)" rule: for_each_course.cases) (auto simp: neq_Nil_conv)

lemma fetch_try_fails_iff:
  "(\<exists>m. fetch_try ord cf sf = Inl m)
     \<longleftrightarrow> rejected cf \<or> rejected sf \<or> not_json cf \<or> not_json sf \<or> no_array cf
         \<or> (no_array sf \<and> some_element cf)"
proof (cases cf)
  case (Inl m)
  then show ?thesis
    by (cases sf) (simp_all add: fetch_try_def split: settled_first.splits)
next
  case cr: (Inr cresp)
  show ?thesis
  proof (cases sf)
    case (Inl m)
    with cr show ?thesis by (simp add: fetch_try_def)
  next
    case sr: (Inr sresp)
    show ?thesis
    proof (cases "resp_body cresp")
      case (NotJson m)
      with cr sr show ?thesis by (simp add: fetch_try_def json_def)
    next
      case cj: (Json cd)
      show ?thesis
      proof (cases "resp_body sresp")
        case (NotJson m)
        with cr sr cj show ?thesis by (simp add: fetch_try_def json_def)
      next
        case sj: (Json sd)
        have "fetch_try ord cf sf = for_each_course cd sd"
          using cr sr cj sj by (simp add: fetch_try_def json_def)
        then show ?thesis
          using cr sr cj sj for_each_course_fails [of cd sd]
          by (cases cd; cases sd) (auto simp: neq_Nil_conv)
      qed
    qed
  qed
qed

text \<open>
  Claim C8, as stated, fails: \<open>fetchData\<close> never looks at the status of a response and
  takes both bodies at their declared type. A sections request answered \<open>404\<close> with a
  body that holds no array ends with no error when no course was fetched; a sections
  request answered with an error status and a body that holds an array of sections is
  merged into the courses and rendered.
\<close>

theorem fetchData_failed_request_counterexample:
  "\<not> resp_ok not_found_sections
   \<and> error (fetchData CoursesFirst (Inr no_courses) (Inr not_found_sections) initial_state) = None
   \<and> render (fetchData CoursesFirst (Inr no_courses) (Inr not_found_sections) initial_state)
       = PanesView [] [] []
   \<and> \<not> resp_ok error_status_sections
   \<and> error (fetchData CoursesFirst (Inr fetched_courses) (Inr error_status_sections) initial_state) = None
   \<and> render (fetchData CoursesFirst (Inr fetched_courses) (Inr error_status_sections) initial_state)
       = PanesView [mk_course ''CPSC'' ''1050'' [S1, S2], mk_course ''MATH'' ''1171'' [S3, S4]] [] []"
  by (simp add: fetchData_def fetch_try_def json_def render_def initial_state_def attach_sections_def
      no_courses_def not_found_sections_def error_status_sections_def fetched_courses_def
      mk_course_def mk_section_def S1_def S2_def S3_def S4_def S5_def)

text \<open>
  Claim C8, amended. When one of the two fetches is rejected, or the body of one of the
  two responses is not JSON, or there is no array of courses to read, or there is no
  array of sections to read and at least one course was fetched, then, whatever the
  other request gives, \<open>fetchData\<close> sets the error message, leaves the courses as they
  were (none, from the initial state), and the component renders the error text and
  nothing else.
\<close>

theorem fetchData_failure_is_total:
  assumes "rejected courses_fetch \<or> rejected sections_fetch
           \<or> not_json courses_fetch \<or> not_json sections_fetch
           \<or> no_array courses_fetch \<or> (no_array sections_fetch \<and> some_element courses_fetch)"
  shows "(\<exists>message. error (fetchData ord courses_fetch sections_fetch st)
                      = Some (''Failed to fetch data: '' @ message)
              \<and> render (fetchData ord courses_fetch sections_fetch st)
                      = ErrorView (''Failed to fetch data: '' @ message))
         \<and> courses (fetchData ord courses_fetch sections_fetch st) = courses st
         \<and> courses (fetchData ord courses_fetch sections_fetch initial_state) = []
         \<and> \<not> isLoading (fetchData ord courses_fetch sections_fetch st)"
proof -
  from assms fetch_try_fails_iff [of ord courses_fetch sections_fetch]
  obtain m where m: "fetch_try ord courses_fetch sections_fetch = Inl m"
    by blast
  then show ?thesis
    by (simp add: fetchData_def render_def initial_state_def)
qed

text \<open>
  The theorem where the courses arrive and the body of the sections is not JSON, and
  where the courses arrive and the sections request is answered \<open>404\<close> without an array.
\<close>

theorem fetchData_failure_is_total_witness:
  "not_json (Inr unparsable_sections)
   \<and> render (fetchData CoursesFirst (Inr fetched_courses) (Inr unparsable_sections) initial_state)
       = ErrorView ''Failed to fetch data: Unexpected token''
   \<and> courses (fetchData CoursesFirst (Inr fetched_courses) (Inr unparsable_sections) initial_state) = []
   \<and> no_array (Inr not_found_sections) \<and> some_element (Inr fetched_courses)
   \<and> render (fetchData CoursesFirst (Inr fetched_courses) (Inr not_found_sections) initial_state)
       = ErrorView ''Failed to fetch data: sectionsData.sections is undefined''
   \<and> courses (fetchData CoursesFirst (Inr fetched_courses) (Inr not_found_sections) initial_state) = []"
proof -
  have h1: "not_json (Inr unparsable_sections)"
    by (simp add: unparsable_sections_def)
  have h2: "no_array (Inr not_found_sections)" "some_element (Inr fetched_courses)"
    by (simp_all add: not_found_sections_def fetched_courses_def)
  have r1: "render (fetchData CoursesFirst (Inr fetched_courses) (Inr unparsable_sections) initial_state)
       = ErrorView ''Failed to fetch data: Unexpected token''"
    by (simp add: fetchData_def fetch_try_def json_def render_def initial_state_def
        fetched_courses_def unparsable_sections_def)
  have r2: "render (fetchData CoursesFirst (Inr fetched_courses) (Inr not_found_sections) initial_state)
       = ErrorView ''Failed to fetch data: sectionsData.sections is undefined''"
    by (simp add: fetchData_def fetch_try_def json_def render_def initial_state_def
        fetched_courses_def not_found_sections_def mk_course_def)
  from fetchData_failure_is_total [of "Inr fetched_courses" "Inr unparsable_sections" CoursesFirst initial_state] h1
  have c1: "courses (fetchData CoursesFirst (Inr fetched_courses) (Inr unparsable_sections) initial_state) = []"
    by blast
  from fetchData_failure_is_total [of "Inr fetched_courses" "Inr not_found_sections" CoursesFirst initial_state] h2
  have c2: "courses (fetchData CoursesFirst (Inr fetched_courses) (Inr not_found_sections) initial_state) = []"
    by blast
  from h1 h2 r1 r2 c1 c2 show ?thesis
    by blast
qed

subsection \<open>Conflict test\<close>

text \<open>
  Claim C2. Two schedule entries conflict iff they have a day of the week in common and
  their half-open intervals from start to end intersect; an entry that ends when the
  other one starts does not conflict with it.
\<close>

theorem conflict_iff_common_day_and_overlap:
  "(conflict a b \<longleftrightarrow>
      (\<exists>d. d \<in> entry_days a \<and> d \<in> entry_days b)
      \<and> {entry_start a ..< entry_end a} \<inter> {entry_start b ..< entry_end b} \<noteq> {})
   \<and> (entry_end a = entry_start b \<longrightarrow> \<not> conflict a b)"
proof -
  have "{entry_start a ..< entry_end a} \<inter> {entry_start b ..< entry_end b}
      = {max (entry_start a) (entry_start b) ..< min (entry_end a) (entry_end b)}"
    by auto
  then have "{entry_start a ..< entry_end a} \<inter> {entry_start b ..< entry_end b} \<noteq> {}
      \<longleftrightarrow> max (entry_start a) (entry_start b) < min (entry_end a) (entry_end b)"
    by auto
  moreover have "entry_days a \<inter> entry_days b \<noteq> {} \<longleftrightarrow> (\<exists>d. d \<in> entry_days a \<and> d \<in> entry_days b)"
    by auto
  ultimately show ?thesis
    by (auto simp: conflict_def)
qed

text \<open>
  The theorem at Monday 9:00 to 10:00 and Monday 10:00 to 11:00; the first of them does
  conflict with Monday and Wednesday 9:30 to 10:30.
\<close>

theorem conflict_iff_common_day_and_overlap_witness:
  "entry_end nine_to_ten = entry_start ten_to_eleven \<and> \<not> conflict nine_to_ten ten_to_eleven
   \<and> conflict nine_to_ten half_past_nine"
proof -
  have e: "entry_end nine_to_ten = entry_start ten_to_eleven"
    by (simp add: nine_to_ten_def ten_to_eleven_def mk_entry_def)
  from conflict_iff_common_day_and_overlap [of nine_to_ten ten_to_eleven] e
  have "\<not> conflict nine_to_ten ten_to_eleven" by blast
  moreover have "conflict nine_to_ten half_past_nine"
    by (simp add: conflict_def nine_to_ten_def half_past_nine_def mk_entry_def)
  ultimately show ?thesis using e by blast
qed

lemma conflict_commute: "conflict a b = conflict b a"
proof -
  have "entry_days a \<inter> entry_days b = entry_days b \<inter> entry_days a"
    by (rule Int_commute)
  moreover have "max (entry_start a) (entry_start b) = max (entry_start b) (entry_start a)"
    by (rule max.commute)
  moreover have "min (entry_end a) (entry_end b) = min (entry_end b) (entry_end a)"
    by (rule min.commute)
  ultimately show ?thesis
    by (simp only: conflict_def)
qed

text \<open>Claim C3. The conflict test is symmetric.\<close>

theorem conflict_symmetric: "conflict a b = conflict b a"
  by (rule conflict_commute)

theorem conflict_symmetric_witness:
  "conflict nine_to_ten half_past_nine = conflict half_past_nine nine_to_ten
   \<and> conflict half_past_nine nine_to_ten"
  using conflict_symmetric [of nine_to_ten half_past_nine]
  by (simp add: conflict_def nine_to_ten_def half_past_nine_def mk_entry_def)

subsection \<open>Combination enumerator\<close>

lemma length_cartesian: "length (cartesian gs) = prod_list (map length gs)"
proof (induction gs)
  case Nil
  then show ?case by simp
next
  case (Cons g gs)
  have "length (concat (map (\<lambda>s. map (\<lambda>cmb. s # cmb) (cartesian gs)) g))
      = length g * length (cartesian gs)"
    by (induction g) simp_all
  with Cons show ?case by simp
qed

lemma cartesian_empty_group: "[] \<in> set gs \<Longrightarrow> cartesian gs = []"
proof -
  assume "[] \<in> set gs"
  then have "0 \<in> set (map length gs)" by force
  then have "prod_list (map length gs) = 0"
    by (simp add: prod_list_zero_iff)
  then show ?thesis
    using length_cartesian [of gs] by simp
qed

lemma course_groups_empty: "sections c = [] \<Longrightarrow> [] \<in> set (course_groups ctype c)"
  by (simp add: course_groups_def)

lemma groups_empty_course:
  "c \<in> set sel \<Longrightarrow> sections c = [] \<Longrightarrow> [] \<in> set (groups ctype sel)"
  using course_groups_empty [of c ctype] by (auto simp: groups_def)

lemma course_groups_no_components: "course_groups no_components c = [sections c]"
  by (cases "sections c") (simp_all add: course_groups_def no_components_def)

lemma example_selection_facts:
  "distinct (map course_key example_selection)"
  "CPSC1050 \<in> set example_selection"
  "MATH1171 \<in> set example_selection"
  "last example_selection = MATH1171"
  by (simp_all add: example_selection_def course_key_def CPSC1050_def MATH1171_def mk_course_def)

lemma Enumerator_example_ids:
  "map (\<lambda>(cmb, ok). (map sec_id cmb, ok)) (Enumerator no_components example_selection)
     = [([''S1'', ''S3''], True), ([''S1'', ''S4''], False),
        ([''S2'', ''S3''], True), ([''S2'', ''S4''], False)]"
  by code_simp

lemma Enumerator_readded_ids:
  "map (\<lambda>(cmb, ok). (map sec_id cmb, ok))
       (Enumerator no_components (add CPSC1050 (remove (course_key CPSC1050) example_selection)))
     = [([''S3'', ''S1''], True), ([''S3'', ''S2''], True),
        ([''S4'', ''S1''], False), ([''S4'', ''S2''], False)]"
  by code_simp

lemma no_sections_facts:
  "CPSC1150 \<in> set selection_without_sections" "sections CPSC1150 = []"
  "[] \<in> set (groups no_components selection_without_sections)"
  by (simp_all add: selection_without_sections_def CPSC1150_def mk_course_def groups_def course_groups_def)

text \<open>
  Claim C1. The number of combinations the Enumerator gives is the product of the sizes
  of the groups of the Selection; with a group without sections, and so with a course
  without sections, it gives no combination; for the empty Selection it gives the one
  empty combination.
\<close>

theorem Enumerator_count:
  "length (Enumerator ctype sel) = prod_list (map length (groups ctype sel))
   \<and> ([] \<in> set (groups ctype sel) \<longrightarrow> Enumerator ctype sel = [])
   \<and> ((\<exists>c \<in> set sel. sections c = []) \<longrightarrow> Enumerator ctype sel = [])
   \<and> Enumerator ctype [] = [([], True)]"
proof -
  have a: "length (Enumerator ctype sel) = prod_list (map length (groups ctype sel))"
    by (simp add: Enumerator_def length_cartesian)
  have b: "[] \<in> set (groups ctype sel) \<longrightarrow> Enumerator ctype sel = []"
    by (simp add: Enumerator_def cartesian_empty_group)
  have c: "(\<exists>c \<in> set sel. sections c = []) \<longrightarrow> Enumerator ctype sel = []"
    using b groups_empty_course [of _ sel ctype] by blast
  have d: "Enumerator ctype [] = [([], True)]"
    by (simp add: Enumerator_def groups_def valid_def non_exam_entries_def)
  from a b c d show ?thesis by blast
qed

text \<open>
  The theorem at a Selection with a course without sections and at one of two courses
  with two sections each.
\<close>

theorem Enumerator_count_witness:
  "[] \<in> set (groups no_components selection_without_sections)
   \<and> CPSC1150 \<in> set selection_without_sections \<and> sections CPSC1150 = []
   \<and> Enumerator no_components selection_without_sections = []
   \<and> map length (groups no_components example_selection) = [2, 2]
   \<and> length (Enumerator no_components example_selection) = 4"
proof -
  from Enumerator_count [of no_components selection_without_sections] no_sections_facts(3)
  have a: "Enumerator no_components selection_without_sections = []" by blast
  have g: "map length (groups no_components example_selection) = [2, 2]"
    by code_simp
  from Enumerator_count [of no_components example_selection]
  have "length (Enumerator no_components example_selection)
      = prod_list (map length (groups no_components example_selection))" by blast
  then have "length (Enumerator no_components example_selection) = 4"
    unfolding g by simp
  with a g no_sections_facts show ?thesis by blast
qed

lemma nth_concat_uniform:
  "\<forall>x \<in> set xs. length (f x) = n \<Longrightarrow> k < length xs * n \<Longrightarrow>
     concat (map f xs) ! k = f (xs ! (k div n)) ! (k mod n)"
proof (induction xs arbitrary: k)
  case Nil
  then show ?case by simp
next
  case (Cons x xs)
  have n: "0 < n" using Cons.prems(2) by (cases n) auto
  show ?case
  proof (cases "k < n")
    case True
    with Cons.prems show ?thesis by (simp add: nth_append)
  next
    case False
    then have kn: "n \<le> k" by simp
    have lt: "k - n < length xs * n" using Cons.prems(2) kn by auto
    have d: "k div n = Suc ((k - n) div n)" using kn n by (simp add: le_div_geq)
    have m: "k mod n = (k - n) mod n" using kn by (simp add: le_mod_geq)
    have "concat (map f (x # xs)) ! k = concat (map f xs) ! (k - n)"
      using False Cons.prems(1) by (simp add: nth_append)
    also have "\<dots> = f (xs ! ((k - n) div n)) ! ((k - n) mod n)"
      using Cons.IH [OF _ lt] Cons.prems(1) by simp
    finally show ?thesis by (simp add: d m)
  qed
qed

lemma nth_cartesian:
  "k < length (cartesian gs) \<Longrightarrow> cartesian gs ! k = nth_combination gs k"
proof (induction gs arbitrary: k)
  case Nil
  then show ?case by simp
next
  case (Cons g gs)
  let ?P = "prod_list (map length gs)"
  let ?f = "\<lambda>s. map (\<lambda>cmb. s # cmb) (cartesian gs)"
  have len: "\<forall>s \<in> set g. length (?f s) = ?P" by (simp add: length_cartesian)
  have k: "k < length g * ?P"
    using Cons.prems length_cartesian [of "g # gs"] by simp
  then have P: "0 < ?P" by (cases ?P) auto
  then have km: "k mod ?P < length (cartesian gs)" by (simp add: length_cartesian)
  have "cartesian (g # gs) ! k = ?f (g ! (k div ?P)) ! (k mod ?P)"
    using nth_concat_uniform [OF len k] by simp
  also have "\<dots> = (g ! (k div ?P)) # cartesian gs ! (k mod ?P)"
    using km by simp
  also have "\<dots> = nth_combination (g # gs) k"
    using Cons.IH [OF km] by simp
  finally show ?case .
qed

lemma cartesian_by_position:
  "cartesian gs = map (nth_combination gs) [0..<prod_list (map length gs)]"
  by (rule nth_equalityI) (simp_all add: length_cartesian nth_cartesian)

lemma set_first_occurrences: "set (first_occurrences xs) = set xs"
  by (induction xs rule: first_occurrences.induct) auto

lemma distinct_first_occurrences: "distinct (first_occurrences xs)"
  by (induction xs rule: first_occurrences.induct) (auto simp: set_first_occurrences)

lemma first_occurrences_constant:
  "\<forall>x \<in> set xs. x = k \<Longrightarrow> xs \<noteq> [] \<Longrightarrow> first_occurrences xs = [k]"
proof (cases xs)
  case Nil
  assume "xs \<noteq> []"
  with Nil show ?thesis by simp
next
  case (Cons x ys)
  assume a: "\<forall>x \<in> set xs. x = k"
  with Cons have "filter (\<lambda>y. y \<noteq> x) ys = []" by (auto simp: filter_empty_conv)
  with a Cons show ?thesis by simp
qed

lemma course_groups_one_type:
  assumes "\<forall>s \<in> set (sections c). ctype s = k"
  shows "course_groups ctype c = [sections c]"
proof (cases "sections c = []")
  case True
  then show ?thesis by (simp add: course_groups_def)
next
  case False
  have "first_occurrences (map ctype (sections c)) = [k]"
    using assms False by (intro first_occurrences_constant) auto
  moreover have "filter (\<lambda>s. ctype s = k) (sections c) = sections c"
    using assms by (simp add: filter_id_conv)
  ultimately show ?thesis
    using False by (simp add: course_groups_def)
qed

lemma course_groups_cover:
  "sections c \<noteq> [] \<Longrightarrow> \<Union> (set ` set (course_groups ctype c)) = set (sections c)"
  by (auto simp: course_groups_def set_first_occurrences)

lemma course_groups_nonempty:
  "sections c \<noteq> [] \<Longrightarrow> [] \<notin> set (course_groups ctype c)"
proof
  assume ne: "sections c \<noteq> []" and "[] \<in> set (course_groups ctype c)"
  then obtain s where s: "s \<in> set (sections c)"
    and e: "filter (\<lambda>t. ctype t = ctype s) (sections c) = []"
    by (auto simp: course_groups_def set_first_occurrences)
  from e have "\<forall>t \<in> set (sections c). ctype t \<noteq> ctype s"
    by (simp add: filter_empty_conv)
  with s show False by blast
qed

lemma course_groups_sections:
  "sections c' = sections c \<Longrightarrow> course_groups ctype c' = course_groups ctype c"
  by (simp add: course_groups_def)

lemma groups_sections:
  "map sections sel' = map sections sel \<Longrightarrow> groups ctype sel' = groups ctype sel"
proof (induction sel' arbitrary: sel)
  case Nil
  then show ?case by simp
next
  case (Cons c' sel')
  then obtain c rest where sel: "sel = c # rest" by (cases sel) auto
  with Cons.prems have "sections c' = sections c" "map sections sel' = map sections rest"
    by simp_all
  with Cons.IH [of rest] course_groups_sections [of c' c ctype] show ?case
    by (simp add: sel groups_def)
qed

lemma Enumerator_empty_iff:
  "Enumerator ctype sel = [] \<longleftrightarrow> (\<exists>c \<in> set sel. sections c = [])"
proof -
  have "Enumerator ctype sel = [] \<longleftrightarrow> prod_list (map length (groups ctype sel)) = 0"
    using length_cartesian [of "groups ctype sel"]
    by (simp add: Enumerator_def length_0_conv [symmetric] del: length_0_conv)
  also have "\<dots> \<longleftrightarrow> [] \<in> set (groups ctype sel)"
    by (auto simp: prod_list_zero_iff)
  also have "\<dots> \<longleftrightarrow> (\<exists>c \<in> set sel. sections c = [])"
    using course_groups_nonempty course_groups_empty by (fastforce simp: groups_def)
  finally show ?thesis .
qed

text \<open>
  Claim C4. The list the Enumerator gives depends on nothing but the lists of sections
  of the courses of the Selection, in the order of the Selection: two Selections with
  the same lists of sections, so also two runs on one unchanged Selection, give the same
  list. Its order is fixed by positions: the entry at position \<open>k\<close> takes from each
  group, in the order of the Selection, the section at the position that the digit of
  \<open>k\<close> for that group names.
\<close>

theorem Enumerator_order_by_position:
  "(map sections sel' = map sections sel \<longrightarrow> Enumerator ctype sel' = Enumerator ctype sel)
   \<and> Enumerator ctype sel
       = map (\<lambda>k. (nth_combination (groups ctype sel) k, valid (nth_combination (groups ctype sel) k)))
           [0..<prod_list (map length (groups ctype sel))]"
proof -
  have "map sections sel' = map sections sel \<longrightarrow> Enumerator ctype sel' = Enumerator ctype sel"
    by (simp add: Enumerator_def groups_sections [of sel' sel ctype])
  moreover have "Enumerator ctype sel
       = map (\<lambda>k. (nth_combination (groups ctype sel) k, valid (nth_combination (groups ctype sel) k)))
           [0..<prod_list (map length (groups ctype sel))]"
    by (simp add: Enumerator_def cartesian_by_position [of "groups ctype sel"] comp_def)
  ultimately show ?thesis by blast
qed

text \<open>
  The theorem at the Selection of two courses with two sections each and at a Selection
  of two other courses with the same sections.
\<close>

theorem Enumerator_order_by_position_witness:
  "map sections renamed_selection = map sections example_selection
   \<and> Enumerator no_components renamed_selection = Enumerator no_components example_selection
   \<and> map (\<lambda>(cmb, ok). (map sec_id cmb, ok))
       (map (\<lambda>k. (nth_combination (groups no_components example_selection) k,
                  valid (nth_combination (groups no_components example_selection) k))) [0..<2 * 2])
     = [([''S1'', ''S3''], True), ([''S1'', ''S4''], False),
        ([''S2'', ''S3''], True), ([''S2'', ''S4''], False)]"
proof -
  have s: "map sections renamed_selection = map sections example_selection"
    by (simp add: renamed_selection_def example_selection_def CPSC1050_def MATH1171_def mk_course_def)
  have g: "prod_list (map length (groups no_components example_selection)) = 2 * 2"
    by code_simp
  from Enumerator_order_by_position [of renamed_selection example_selection no_components] s
  have e: "Enumerator no_components renamed_selection = Enumerator no_components example_selection"
    and p: "Enumerator no_components example_selection
       = map (\<lambda>k. (nth_combination (groups no_components example_selection) k,
                  valid (nth_combination (groups no_components example_selection) k))) [0..<2 * 2]"
    unfolding g by blast+
  from Enumerator_example_ids have "map (\<lambda>(cmb, ok). (map sec_id cmb, ok))
       (map (\<lambda>k. (nth_combination (groups no_components example_selection) k,
                  valid (nth_combination (groups no_components example_selection) k))) [0..<2 * 2])
     = [([''S1'', ''S3''], True), ([''S1'', ''S4''], False),
        ([''S2'', ''S3''], True), ([''S2'', ''S4''], False)]"
    unfolding p [symmetric] .
  with s e show ?thesis by blast
qed

subsection \<open>Removing a course and adding it again\<close>

lemma set_cartesian:
  "set (cartesian gs) = {xs. list_all2 (\<lambda>x g. x \<in> set g) xs gs}"
  by (induction gs) (auto simp: list_all2_Cons2)

lemma set_cartesian_append:
  "set (cartesian (as @ bs)) = {x @ y | x y. x \<in> set (cartesian as) \<and> y \<in> set (cartesian bs)}"
proof -
  have "list_all2 (\<lambda>x g. x \<in> set g) zs (as @ bs)
      \<longleftrightarrow> (\<exists>x y. zs = x @ y \<and> list_all2 (\<lambda>x g. x \<in> set g) x as
                       \<and> list_all2 (\<lambda>x g. x \<in> set g) y bs)" for zs
    by (auto simp: list_all2_append2 dest: list_all2_lengthD)
  then show ?thesis
    unfolding set_cartesian by auto
qed

lemma non_exam_entries_append:
  "non_exam_entries (a @ b) = non_exam_entries a @ non_exam_entries b"
  by (simp add: non_exam_entries_def)

lemma conflict_free_append:
  "conflict_free (xs @ ys)
     = (conflict_free xs \<and> conflict_free ys \<and> (\<forall>x \<in> set xs. \<forall>y \<in> set ys. \<not> conflict x y))"
  by (induction xs) (auto simp: list_all_iff)

lemma conflict_free_commute: "conflict_free (xs @ ys) = conflict_free (ys @ xs)"
  using conflict_commute by (auto simp: conflict_free_append)

lemma valid_swap: "valid (a @ c @ b) = valid (a @ b @ c)"
proof -
  have "conflict_free (non_exam_entries a @ (non_exam_entries c @ non_exam_entries b))
      = conflict_free (non_exam_entries a @ (non_exam_entries b @ non_exam_entries c))"
    using conflict_free_commute [of "non_exam_entries c" "non_exam_entries b"]
    by (auto simp: conflict_free_append [of "non_exam_entries a"])
  then show ?thesis
    by (simp add: valid_def non_exam_entries_append)
qed

lemma groups_append: "groups ctype (xs @ ys) = groups ctype xs @ groups ctype ys"
  by (simp add: groups_def)

lemma groups_Cons: "groups ctype (c # ys) = course_groups ctype c @ groups ctype ys"
  by (simp add: groups_def)

lemma filter_other_keys:
  "k \<notin> f ` set xs \<Longrightarrow> filter (\<lambda>d. f d \<noteq> k) xs = xs"
  by (induction xs) auto

lemma remove_then_add:
  assumes "distinct (map course_key sel)" and "sel = xs @ c # ys"
  shows "add c (remove (course_key c) sel) = xs @ ys @ [c]"
proof -
  from assms have nx: "course_key c \<notin> course_key ` set xs" and ny: "course_key c \<notin> course_key ` set ys"
    by auto
  have "filter (\<lambda>d. course_key d \<noteq> course_key c) xs = xs"
    using nx by (rule filter_other_keys)
  moreover have "filter (\<lambda>d. course_key d \<noteq> course_key c) ys = ys"
    using ny by (rule filter_other_keys)
  ultimately have r: "remove (course_key c) sel = xs @ ys"
    using assms(2) by (simp add: remove_def)
  show ?thesis
    using nx ny by (simp add: r add_def)
qed

lemma image_cartesian_swap_subset:
  "(\<lambda>cmb. (set cmb, valid cmb)) ` set (cartesian (A @ C @ B))
     \<subseteq> (\<lambda>cmb. (set cmb, valid cmb)) ` set (cartesian (A @ B @ C))"
proof
  fix p
  assume "p \<in> (\<lambda>cmb. (set cmb, valid cmb)) ` set (cartesian (A @ C @ B))"
  then obtain cmb where cmb: "cmb \<in> set (cartesian (A @ C @ B))" and p: "p = (set cmb, valid cmb)"
    by blast
  from cmb obtain a r where a: "a \<in> set (cartesian A)" and r: "r \<in> set (cartesian (C @ B))"
    and cmb_ar: "cmb = a @ r"
    unfolding set_cartesian_append [of A] by blast
  from r obtain c b where c: "c \<in> set (cartesian C)" and b: "b \<in> set (cartesian B)"
    and r_cb: "r = c @ b"
    unfolding set_cartesian_append [of C] by blast
  have "b @ c \<in> set (cartesian (B @ C))"
    unfolding set_cartesian_append [of B] using b c by blast
  then have m: "a @ b @ c \<in> set (cartesian (A @ B @ C))"
    unfolding set_cartesian_append [of A] using a by blast
  have "p = (set (a @ b @ c), valid (a @ b @ c))"
    unfolding p cmb_ar r_cb by (simp add: valid_swap Un_commute)
  with m show "p \<in> (\<lambda>cmb. (set cmb, valid cmb)) ` set (cartesian (A @ B @ C))"
    by blast
qed

lemma image_cartesian_swap:
  "(\<lambda>cmb. (set cmb, valid cmb)) ` set (cartesian (A @ C @ B))
     = (\<lambda>cmb. (set cmb, valid cmb)) ` set (cartesian (A @ B @ C))"
  using image_cartesian_swap_subset [of A C B] image_cartesian_swap_subset [of A B C]
  by (rule subset_antisym)

lemma length_cartesian_swap:
  "length (cartesian (A @ C @ B)) = length (cartesian (A @ B @ C))"
  by (simp add: length_cartesian mult.commute)

lemma image_Enumerator:
  "(\<lambda>(cmb, ok). (set cmb, ok)) ` set (Enumerator ctype sel)
     = (\<lambda>cmb. (set cmb, valid cmb)) ` set (cartesian (groups ctype sel))"
  by (simp add: Enumerator_def image_image)

lemma last_of_distinct_keys:
  assumes "distinct (map course_key (xs @ c # ys))" and "last (xs @ c # ys) = c"
  shows "ys = []"
proof (rule ccontr)
  assume "ys \<noteq> []"
  then have "last (xs @ c # ys) = last ys" and "last ys \<in> set ys" by simp_all
  with assms(2) have "c \<in> set ys" by simp
  with assms(1) show False by auto
qed

lemma distinct_add: "distinct (map course_key sel) \<Longrightarrow> distinct (map course_key (add c sel))"
  by (simp add: add_def)

lemma distinct_remove: "distinct (map course_key sel) \<Longrightarrow> distinct (map course_key (remove k sel))"
  by (simp add: remove_def distinct_map_filter)

text \<open>
  In this model of the Selection and of the Enumerator, \<open>add\<close> puts a removed course
  back at the end of the Selection and the enumeration follows the order of the
  Selection: for the Selection of CPSC 1050 and MATH 1171, removing and adding
  CPSC 1050 changes the list of the combinations, also when each combination is read as
  a set of sections.
\<close>

lemma remove_then_add_changes_order:
  "distinct (map course_key example_selection) \<and> CPSC1050 \<in> set example_selection
   \<and> combination_sets (Enumerator no_components (add CPSC1050 (remove (course_key CPSC1050) example_selection)))
       \<noteq> combination_sets (Enumerator no_components example_selection)"
proof -
  have "combination_sets (Enumerator no_components (add CPSC1050 (remove (course_key CPSC1050) example_selection)))
       \<noteq> combination_sets (Enumerator no_components example_selection)"
    by code_simp
  with example_selection_facts show ?thesis by blast
qed

text \<open>
  In a Selection with pairwise different keys, removing a course and adding it again
  moves the course to the end and keeps the other courses in their order. In this model
  the Enumerator then gives as many combinations as before, and the same ones, each read
  as a set of sections with its validity flag. When the course was the last one of the
  Selection, the Selection and the list of the combinations are as before.
\<close>

lemma remove_then_add_same_combinations:
  assumes "distinct (map course_key sel)" and "c \<in> set sel"
  shows "(\<exists>xs ys. sel = xs @ c # ys \<and> add c (remove (course_key c) sel) = xs @ ys @ [c])
     \<and> length (Enumerator ctype (add c (remove (course_key c) sel))) = length (Enumerator ctype sel)
     \<and> (\<lambda>(cmb, ok). (set cmb, ok)) ` set (Enumerator ctype (add c (remove (course_key c) sel)))
         = (\<lambda>(cmb, ok). (set cmb, ok)) ` set (Enumerator ctype sel)
     \<and> (last sel = c \<longrightarrow>
           add c (remove (course_key c) sel) = sel
         \<and> Enumerator ctype (add c (remove (course_key c) sel)) = Enumerator ctype sel)"
proof -
  from assms(2) obtain xs ys where sel: "sel = xs @ c # ys"
    by (auto dest: split_list)
  let ?sel' = "add c (remove (course_key c) sel)"
  have sel': "?sel' = xs @ ys @ [c]"
    using assms(1) sel by (rule remove_then_add)
  let ?A = "groups ctype xs" and ?C = "course_groups ctype c" and ?B = "groups ctype ys"
  have g: "groups ctype sel = ?A @ ?C @ ?B"
    by (simp add: sel groups_append groups_Cons)
  have g': "groups ctype ?sel' = ?A @ ?B @ ?C"
    by (simp add: sel' groups_append groups_Cons groups_def)
  have len: "length (Enumerator ctype ?sel') = length (Enumerator ctype sel)"
    using length_cartesian_swap [of ?A ?B ?C] by (simp add: Enumerator_def g g')
  have img: "(\<lambda>(cmb, ok). (set cmb, ok)) ` set (Enumerator ctype ?sel')
         = (\<lambda>(cmb, ok). (set cmb, ok)) ` set (Enumerator ctype sel)"
    unfolding image_Enumerator g g' by (rule image_cartesian_swap)
  have lst: "last sel = c \<longrightarrow> ?sel' = sel \<and> Enumerator ctype ?sel' = Enumerator ctype sel"
  proof
    assume "last sel = c"
    with assms(1) have "ys = []"
      unfolding sel by (rule last_of_distinct_keys)
    then have "xs @ ys @ [c] = sel" by (simp add: sel)
    with sel' have "?sel' = sel" by (rule trans)
    then show "?sel' = sel \<and> Enumerator ctype ?sel' = Enumerator ctype sel" by simp
  qed
  from sel sel' len img lst show ?thesis by blast
qed

text \<open>
  The lemma at the Selection of CPSC 1050 and MATH 1171, for the last course and for the
  first.
\<close>

lemma remove_then_add_same_combinations_example:
  "distinct (map course_key example_selection) \<and> MATH1171 \<in> set example_selection
   \<and> last example_selection = MATH1171
   \<and> add MATH1171 (remove (course_key MATH1171) example_selection) = example_selection
   \<and> length (Enumerator no_components (add CPSC1050 (remove (course_key CPSC1050) example_selection))) = 4"
proof -
  from remove_then_add_same_combinations [OF example_selection_facts(1) example_selection_facts(3), of no_components]
    example_selection_facts(4)
  have a: "add MATH1171 (remove (course_key MATH1171) example_selection) = example_selection"
    by blast
  from remove_then_add_same_combinations [OF example_selection_facts(1) example_selection_facts(2), of no_components]
  have "length (Enumerator no_components (add CPSC1050 (remove (course_key CPSC1050) example_selection)))
      = length (Enumerator no_components example_selection)"
    by blast
  also have "\<dots> = length (map (\<lambda>(cmb, ok). (map sec_id cmb, ok)) (Enumerator no_components example_selection))"
    by simp
  also have "\<dots> = 4"
    unfolding Enumerator_example_ids by simp
  finally show ?thesis
    using a example_selection_facts by blast
qed

end
